theory Spec2Isabelle
  imports Main
begin

section \<open>Validators of \<open>ietf/utils/validators.py\<close>\<close>

text \<open>
  A Python \<open>str\<close> is modelled as a HOL \<open>string\<close>: the list of its code points, each
  below 256.  A \<open>bytes\<close> value is the list of its bytes, the same type.  A raised
  exception is the \<open>Inl\<close> branch of a sum; a call that returns normally is \<open>Inr\<close>.
\<close>

datatype error = ValidationError string | ValueError string

type_synonym 'a result = "error + 'a"

subsection \<open>Strings\<close>

text \<open>
  \<open>str.lower()\<close> on code points below 256: the ASCII capitals and the Latin-1 capitals
  (0xC0 to 0xDE, the multiplication sign 0xD7 apart) move up by 32.
\<close>

definition lower_char :: "char \<Rightarrow> char" where
  "lower_char c =
     (let n = (of_char c :: nat)
      in if (0x41 \<le> n \<and> n \<le> 0x5A) \<or> (0xC0 \<le> n \<and> n \<le> 0xDE \<and> n \<noteq> 0xD7)
         then char_of (n + 0x20) else c)"

definition lower :: "string \<Rightarrow> string" where
  "lower s = map lower_char s"

text \<open>\<open>s.startswith(p)\<close>, and \<open>sub in s\<close> for strings: \<open>sub\<close> occurs as a contiguous run.\<close>

fun startswith :: "string \<Rightarrow> string \<Rightarrow> bool" where
  "startswith s [] = True"
| "startswith [] (p # ps) = False"
| "startswith (c # cs) (p # ps) = (c = p \<and> startswith cs ps)"

fun contains :: "string \<Rightarrow> string \<Rightarrow> bool" where
  "contains sub [] = (sub = [])"
| "contains sub (c # cs) = (startswith (c # cs) sub \<or> contains sub cs)"

text \<open>\<open>sep.join(xs)\<close>.\<close>

fun join :: "string \<Rightarrow> string list \<Rightarrow> string" where
  "join sep [] = []"
| "join sep [x] = x"
| "join sep (x # y # ys) = x @ sep @ join sep (y # ys)"

text \<open>
  \<open>s.replace(old, new)\<close>: the occurrences of \<open>old\<close> are found from the left, without
  overlap; an empty \<open>old\<close> matches before every character and at the end.
\<close>

function replace :: "string \<Rightarrow> string \<Rightarrow> string \<Rightarrow> string" where
  "replace old new [] = (if old = [] then new else [])"
| "replace old new (c # cs) =
     (if old = [] then new @ c # replace old new cs
      else if startswith (c # cs) old then new @ replace old new (drop (length old) (c # cs))
      else c # replace old new cs)"
  by pat_completeness auto
termination
  by (relation "measure (\<lambda>(old, new, s). length s)") auto

subsection \<open>Regular expressions\<close>

text \<open>
  The two patterns of the source, \<open>^[^\x00-\x1f]*$\<close> and \<open>(?m)^virtual\s\<close>, are built
  from six kinds of item, modelled with the meaning Python's \<open>re\<close> module documents:
  \<open>^\<close> matches at the start of the string, and in multiline mode also right after a
  newline; \<open>$\<close> (not multiline) matches at the end of the string and also just before a
  newline that is the last character; a literal character and \<open>\s\<close> consume one character;
  a starred negated range consumes any number of characters outside the range.
  \<open>re_match\<close> follows every choice the backtracking matcher has; \<open>prev\<close> is the character
  before the position, \<open>None\<close> at the start of the string.
\<close>

datatype re_item = Bol | BolM | Eol | Chr char | Space | StarNotRange char char

definition in_range :: "char \<Rightarrow> char \<Rightarrow> char \<Rightarrow> bool" where
  "in_range lo hi c = ((of_char lo :: nat) \<le> of_char c \<and> (of_char c :: nat) \<le> of_char hi)"

text \<open>\<open>\s\<close> in a bytes pattern: space, tab, newline, vertical tab, form feed, return.\<close>

definition is_space :: "char \<Rightarrow> bool" where
  "is_space c = (c = CHR 0x20 \<or> (0x09 \<le> (of_char c :: nat) \<and> (of_char c :: nat) \<le> 0x0D))"

fun re_match :: "re_item list \<Rightarrow> char option \<Rightarrow> string \<Rightarrow> bool" where
  "re_match [] prev s = True"
| "re_match (Bol # r) prev s = (prev = None \<and> re_match r prev s)"
| "re_match (BolM # r) prev s = ((prev = None \<or> prev = Some (CHR 0x0A)) \<and> re_match r prev s)"
| "re_match (Eol # r) prev s = ((s = [] \<or> s = [CHR 0x0A]) \<and> re_match r prev s)"
| "re_match (Chr x # r) prev [] = False"
| "re_match (Chr x # r) prev (c # cs) = (c = x \<and> re_match r (Some c) cs)"
| "re_match (Space # r) prev [] = False"
| "re_match (Space # r) prev (c # cs) = (is_space c \<and> re_match r (Some c) cs)"
| "re_match (StarNotRange lo hi # r) prev [] = re_match r prev []"
| "re_match (StarNotRange lo hi # r) prev (c # cs) =
     ((\<not> in_range lo hi c \<and> re_match (StarNotRange lo hi # r) (Some c) cs)
      \<or> re_match r prev (c # cs))"

text \<open>\<open>pattern.search(s)\<close>: a match starting at some position of \<open>s\<close>, the end included.\<close>

fun re_search_from :: "re_item list \<Rightarrow> char option \<Rightarrow> string \<Rightarrow> bool" where
  "re_search_from p prev [] = re_match p prev []"
| "re_search_from p prev (c # cs) = (re_match p prev (c # cs) \<or> re_search_from p (Some c) cs)"

definition re_search :: "re_item list \<Rightarrow> string \<Rightarrow> bool" where
  "re_search p s = re_search_from p None s"

subsection \<open>\<open>validate_no_control_chars\<close>\<close>

text \<open>
  Django's \<open>RegexValidator\<close>: \<open>__call__\<close> searches the value and raises
  \<open>ValidationError(message)\<close> when the search result is the wrong one.
\<close>

record RegexValidator =
  regex :: "re_item list"
  message :: string
  inverse_match :: bool

definition RegexValidator_call :: "RegexValidator \<Rightarrow> string \<Rightarrow> unit result" where
  "RegexValidator_call v value =
     (let regex_matches = re_search (regex v) value;
          invalid_input = (if inverse_match v then regex_matches else \<not> regex_matches)
      in if invalid_input then Inl (ValidationError (message v)) else Inr ())"

definition no_control_chars_validator :: RegexValidator where
  "no_control_chars_validator =
     \<lparr> regex = [Bol, StarNotRange (CHR 0x00) (CHR 0x1F), Eol],
       message = ''Please enter a string without control characters.'',
       inverse_match = False \<rparr>"

definition validate_no_control_chars :: "string \<Rightarrow> unit result" where
  "validate_no_control_chars value = RegexValidator_call no_control_chars_validator value"

definition is_control :: "char \<Rightarrow> bool" where
  "is_control c = ((of_char c :: nat) < 0x20)"

subsection \<open>\<open>RegexStringValidator\<close>\<close>

text \<open>
  \<open>re.compile\<close> is Python's; the validator only asks whether it raises.  It is a
  parameter: \<open>Some e\<close> is the text of the exception raised, \<open>None\<close> a pattern that
  compiles.
\<close>

definition dquote :: string where
  "dquote = [CHR 0x22]"

definition RegexStringValidator_call :: "(string \<Rightarrow> string option) \<Rightarrow> string \<Rightarrow> unit result" where
  "RegexStringValidator_call re_compile value =
     (case re_compile value of
        Some e \<Rightarrow>
          Inl (ValidationError
            (''Please enter a valid regular expression.  ''
             @ ''Got an error when trying to compile this: ''
             @ dquote @ value @ dquote @ '' : '' @ dquote @ e @ dquote))
      | None \<Rightarrow>
          if contains ''-*'' value
          then Inl (ValidationError
            (''Did you really mean that?  The regular expression ''
             @ ''contains '' @ dquote @ ''-*'' @ dquote @ '' which will match zero or more dashes.  ''
             @ ''Maybe you meant to write '' @ dquote @ ''-.*'' @ dquote
             @ ''?  If you actually meant '' @ dquote @ ''-*'' @ dquote @ '', ''
             @ ''you can use '' @ dquote @ ''[-]*'' @ dquote @ '' instead to get past this error.''))
          else Inr ())"

text \<open>
  The class has no fields (\<open>__init__\<close> does nothing).  The objects it can be compared
  with are the instances of the class and everything else; \<open>isinstance\<close> tells them apart.
\<close>

datatype RegexStringValidator = RegexStringValidator

datatype pyobject =
    ValidatorObject RegexStringValidator
  | NoneObject
  | StrObject string
  | IntObject int
  | OtherObject string

fun isinstance_RegexStringValidator :: "pyobject \<Rightarrow> bool" where
  "isinstance_RegexStringValidator (ValidatorObject v) = True"
| "isinstance_RegexStringValidator other = False"

definition RegexStringValidator_eq :: "RegexStringValidator \<Rightarrow> pyobject \<Rightarrow> bool" where
  "RegexStringValidator_eq self other = isinstance_RegexStringValidator other"

definition RegexStringValidator_ne :: "RegexStringValidator \<Rightarrow> pyobject \<Rightarrow> bool" where
  "RegexStringValidator_ne self other = (\<not> RegexStringValidator_eq self other)"

subsection \<open>Uploaded files\<close>

text \<open>
  An uploaded file: \<open>file.name\<close>, \<open>file._size\<close>, its bytes and the read position.
  \<open>file.open()\<close> rewinds; \<open>file.read()\<close> returns the bytes from the position on and
  leaves the position at the end.
\<close>

record UploadedFile =
  file_name :: string
  file_size :: nat
  content :: string
  pos :: nat

definition file_open :: "UploadedFile \<Rightarrow> UploadedFile" where
  "file_open f = f\<lparr>pos := 0\<rparr>"

definition file_read :: "UploadedFile \<Rightarrow> string \<times> UploadedFile" where
  "file_read f = (drop (pos f) (content f), f\<lparr>pos := max (pos f) (length (content f))\<rparr>)"

subsection \<open>\<open>validate_file_size\<close>\<close>

text \<open>
  \<open>settings.SECR_MAX_UPLOAD_SIZE\<close> and Django's \<open>filesizeformat\<close> are parameters of the
  validator.
\<close>

definition validate_file_size :: "(nat \<Rightarrow> string) \<Rightarrow> nat \<Rightarrow> UploadedFile \<Rightarrow> unit result" where
  "validate_file_size filesizeformat SECR_MAX_UPLOAD_SIZE f =
     (if file_size f > SECR_MAX_UPLOAD_SIZE
      then Inl (ValidationError
        (''Please keep filesize under '' @ filesizeformat SECR_MAX_UPLOAD_SIZE
         @ ''. Requested upload size was '' @ filesizeformat (file_size f)))
      else Inr ())"

text \<open>
  The pieces of a rendered size: the decimal digits of a number, the units and their
  sizes in bytes, the choice of the unit, and the rounding to tenths.
\<close>

function show_nat :: "nat \<Rightarrow> string" where
  "show_nat n =
     (if n < 10 then [''0123456789'' ! n]
      else show_nat (n div 10) @ [''0123456789'' ! (n mod 10)])"
  by pat_completeness auto
termination
  by (relation "measure id") auto

declare show_nat.simps [simp del]

datatype size_unit = Bytes | KB | MB | GB | TB

fun unit_bytes :: "size_unit \<Rightarrow> nat" where
  "unit_bytes Bytes = 1"
| "unit_bytes KB = 1024"
| "unit_bytes MB = 1024 * 1024"
| "unit_bytes GB = 1024 * 1024 * 1024"
| "unit_bytes TB = 1024 * 1024 * 1024 * 1024"

fun unit_label :: "size_unit \<Rightarrow> string" where
  "unit_label Bytes = ''bytes''"
| "unit_label KB = ''KB''"
| "unit_label MB = ''MB''"
| "unit_label GB = ''GB''"
| "unit_label TB = ''TB''"

definition largest_unit :: "nat \<Rightarrow> size_unit" where
  "largest_unit n =
     (if unit_bytes TB \<le> n then TB
      else if unit_bytes GB \<le> n then GB
      else if unit_bytes MB \<le> n then MB
      else if unit_bytes KB \<le> n then KB
      else Bytes)"

text \<open>The number of tenths nearest to \<open>n / u\<close> (a half rounds up).\<close>

definition round_tenths :: "nat \<Rightarrow> nat \<Rightarrow> nat" where
  "round_tenths n u = (20 * n + u) div (2 * u)"

text \<open>
  Modelled from the spec: \<open>filesizeformat\<close> is Django's template filter, not a function
  of this file.  The spec's words for it: byte counts are converted to the largest unit
  (bytes, KB, MB, GB, TB) where the value is at least 1, rounded to one decimal place, in
  the style \<open>1.0 MB\<close>.
\<close>

definition filesizeformat :: "nat \<Rightarrow> string" where
  "filesizeformat n =
     (let u = largest_unit n; t = round_tenths n (unit_bytes u)
      in show_nat (t div 10) @ ''.'' @ show_nat (t mod 10) @ '' '' @ unit_label u)"

subsection \<open>\<open>validate_mime_type\<close>\<close>

text \<open>
  \<open>get_mime_type\<close> (of \<open>ietf.utils.mime\<close>) maps the bytes to a MIME type and an encoding;
  it is a parameter.  \<open>valid\<close> is a list of MIME types or \<open>None\<close>; \<open>None\<close> and the empty
  list are the falsy values.
\<close>

definition virtual_regex :: "re_item list" where
  "virtual_regex = BolM # map Chr ''virtual'' @ [Space]"

definition validate_mime_type ::
  "(string \<Rightarrow> string \<times> string) \<Rightarrow> UploadedFile \<Rightarrow> string list option
     \<Rightarrow> (string \<times> string) result \<times> UploadedFile" where
  "validate_mime_type get_mime_type f valid =
     (let (raw, f') = file_read (file_open f);
          (mime_type, encoding) = get_mime_type raw;
          (mime_type, encoding) =
            (if mime_type = ''text/x-c++'' \<and> re_search virtual_regex raw
             then get_mime_type (replace ''virtual'' '' virtual'' raw)
             else (mime_type, encoding))
      in (case valid of
            None \<Rightarrow> Inr (mime_type, encoding)
          | Some vs \<Rightarrow>
              if vs \<noteq> [] \<and> mime_type \<notin> set vs
              then Inl (ValidationError
                (''Found content with unexpected mime type: '' @ mime_type
                 @ ''.  Expected one of '' @ join '', '' vs @ ''.''))
              else Inr (mime_type, encoding),
          f'))"

subsection \<open>\<open>validate_file_extension\<close>\<close>

text \<open>
  \<open>os.path.splitext\<close> (\<open>genericpath._splitext\<close> with separator \<open>/\<close>): the extension starts
  at the last dot of the last path component, unless only dots come before it there.
  \<open>rfind\<close> is \<open>-1\<close> when the character does not occur.
\<close>

fun rfind_from :: "string \<Rightarrow> char \<Rightarrow> int \<Rightarrow> int \<Rightarrow> int" where
  "rfind_from [] c i found = found"
| "rfind_from (x # xs) c i found = rfind_from xs c (i + 1) (if x = c then i else found)"

definition rfind :: "string \<Rightarrow> char \<Rightarrow> int" where
  "rfind p c = rfind_from p c 0 (- 1)"

function splitext_loop :: "string \<Rightarrow> int \<Rightarrow> int \<Rightarrow> string \<times> string" where
  "splitext_loop p filenameIndex dotIndex =
     (if filenameIndex < dotIndex
      then if take 1 (drop (nat filenameIndex) p) \<noteq> ''.''
           then (take (nat dotIndex) p, drop (nat dotIndex) p)
           else splitext_loop p (filenameIndex + 1) dotIndex
      else (p, []))"
  by pat_completeness auto
termination
  by (relation "measure (\<lambda>(p, filenameIndex, dotIndex). nat (dotIndex - filenameIndex))") auto

declare splitext_loop.simps [simp del]

definition splitext :: "string \<Rightarrow> string \<times> string" where
  "splitext p =
     (let sepIndex = rfind p (CHR ''/'');
          dotIndex = rfind p (CHR ''.'')
      in if dotIndex > sepIndex then splitext_loop p (sepIndex + 1) dotIndex else (p, []))"

definition validate_file_extension :: "UploadedFile \<Rightarrow> string list \<Rightarrow> string result" where
  "validate_file_extension f valid =
     (let (name, ext) = splitext (file_name f)
      in if lower ext \<notin> set valid
         then Inl (ValidationError
           (''Found an unexpected extension: '' @ ext
            @ ''.  Expected one of '' @ join '','' valid))
         else Inr ext)"

subsection \<open>\<open>validate_no_html_frame\<close>\<close>

text \<open>
  The document tree \<open>PyQuery\<close> holds is lxml's: elements with a tag, attributes and
  children, and comments.  The tag of an element is its name as lxml reports it: the
  local name, preceded by the namespace in braces when the element has one (\<open>iframe\<close>,
  or \<open>{http://www.w3.org/1999/xhtml}iframe\<close>).  \<open>PyQuery(raw)\<close> parses the bytes, as XML
  when they are well-formed XML and as HTML otherwise, or raises; the parser is a
  parameter.  \<open>q(selector)\<close> with a tag name is the XPath query
  \<open>descendant-or-self::name\<close> from every root: it selects the elements whose tag is that
  name, so elements in no namespace.  The result is a list, truthy when it is not empty.
\<close>

datatype node = Element string "(string \<times> string) list" "node list" | Comment string

fun iter :: "node \<Rightarrow> node list" where
  "iter (Element t a cs) = Element t a cs # concat (map iter cs)"
| "iter (Comment c) = [Comment c]"

fun has_tag :: "string \<Rightarrow> node \<Rightarrow> bool" where
  "has_tag s (Element t a cs) = (t = s)"
| "has_tag s (Comment c) = False"

definition PyQuery_call :: "node list \<Rightarrow> string \<Rightarrow> node list" where
  "PyQuery_call q selector = filter (has_tag selector) (concat (map iter q))"

text \<open>Python's \<open>a or b\<close> on lists: \<open>a\<close> when it is not empty, else \<open>b\<close>.\<close>

definition py_or :: "node list \<Rightarrow> node list \<Rightarrow> node list" where
  "py_or a b = (if a \<noteq> [] then a else b)"

definition validate_no_html_frame ::
  "(string \<Rightarrow> node list result) \<Rightarrow> UploadedFile \<Rightarrow> unit result \<times> UploadedFile" where
  "validate_no_html_frame PyQuery f =
     (let (raw, f') = file_read (file_open f)
      in (case PyQuery raw of
            Inl e \<Rightarrow> Inl e
          | Inr q \<Rightarrow>
              if py_or (py_or (PyQuery_call q ''frameset'') (PyQuery_call q ''frame''))
                   (PyQuery_call q ''iframe'') \<noteq> []
              then Inl (ValidationError
                (''Found content with html frames.  ''
                 @ ''Please upload a file that does not use frames''))
              else Inr (),
          f'))"

subsection \<open>\<open>validate_external_resource_value\<close>\<close>

text \<open>
  A resource name has a slug and a type; the type has a slug and a name
  (\<open>name.slug\<close>, \<open>name.type.slug\<close>, \<open>name.type.name\<close>).
\<close>

record ExtResourceTypeName =
  type_slug :: string
  type_name :: string

record ExtResourceName =
  slug :: string
  rtype :: ExtResourceTypeName

text \<open>
  The three sub-validators are instances of Django's \<open>URLValidator\<close> and
  \<open>EmailValidator\<close>, and \<open>urlparse\<close> is Python's: they are parameters.  A validator
  returns normally or raises; \<open>urlparse(value).netloc\<close> is a string, unless \<open>urlparse\<close>
  raises \<open>ValueError\<close>.
\<close>

record validators =
  validate_url :: "string \<Rightarrow> unit result"
  validate_http_url :: "string \<Rightarrow> unit result"
  validate_email :: "string \<Rightarrow> unit result"

definition validate_external_resource_value ::
  "validators \<Rightarrow> (string \<Rightarrow> string result) \<Rightarrow> ExtResourceName \<Rightarrow> string \<Rightarrow> unit result" where
  "validate_external_resource_value v urlparse_netloc name value =
     (if type_slug (rtype name) = ''url'' then
        if slug name \<in> set [''github_org'', ''github_repo''] then
          (case validate_http_url v value of
             Inl e \<Rightarrow> Inl e
           | Inr u \<Rightarrow>
               (case urlparse_netloc value of
                  Inl e \<Rightarrow> Inl e
                | Inr netloc \<Rightarrow>
                    if lower netloc \<noteq> ''github.com''
                    then Inl (ValidationError ''URL must be a github url'')
                    else Inr ()))
        else if slug name = ''jabber_room'' then Inr ()
        else validate_url v value
      else if type_slug (rtype name) = ''email'' then validate_email v value
      else if type_slug (rtype name) = ''string'' then Inr ()
      else Inl (ValidationError (''Unknown resource type '' @ type_name (rtype name))))"

text \<open>
  The \<open>netloc\<close> that \<open>urllib.parse.urlsplit\<close> (CPython 3.11) computes: leading control
  characters and spaces are stripped, tabs and line breaks are removed, a leading scheme
  and its colon are cut off, and after \<open>//\<close> the netloc runs up to the first of \<open>/\<close>, \<open>?\<close>
  and \<open>#\<close>.  A netloc with one square bracket and not the other raises, and so does a
  netloc whose bracketed host is neither an IPv6 address nor an IPvFuture address
  (\<open>_check_bracketed_host\<close>, which asks the \<open>ipaddress\<close> module).  The last check of
  \<open>urlsplit\<close>, on the NFKC form of a netloc with characters outside ASCII, never raises
  for code points below 256 and has no counterpart here.
\<close>

definition scheme_chars :: "char \<Rightarrow> bool" where
  "scheme_chars c =
     (let n = (of_char c :: nat)
      in (0x61 \<le> n \<and> n \<le> 0x7A) \<or> (0x41 \<le> n \<and> n \<le> 0x5A) \<or> (0x30 \<le> n \<and> n \<le> 0x39)
         \<or> c \<in> set ''+-.'')"

definition is_ascii_alpha :: "char \<Rightarrow> bool" where
  "is_ascii_alpha c =
     (let n = (of_char c :: nat)
      in (0x61 \<le> n \<and> n \<le> 0x7A) \<or> (0x41 \<le> n \<and> n \<le> 0x5A))"

definition strip_scheme :: "string \<Rightarrow> string" where
  "strip_scheme url =
     (let i = length (takeWhile (\<lambda>c. c \<noteq> CHR '':'') url)
      in if CHR '':'' \<in> set url \<and> i > 0 \<and> is_ascii_alpha (hd url)
            \<and> list_all scheme_chars (take i url)
         then drop (i + 1) url else url)"

text \<open>\<open>s.split(sep)\<close> for a separator of one character: at least one part.\<close>

fun split_str :: "char \<Rightarrow> string \<Rightarrow> string list" where
  "split_str sep [] = [[]]"
| "split_str sep (c # cs) =
     (if c = sep then [] # split_str sep cs
      else (let r = split_str sep cs in (c # hd r) # tl r))"

definition is_digit :: "char \<Rightarrow> bool" where
  "is_digit c = (0x30 \<le> (of_char c :: nat) \<and> (of_char c :: nat) \<le> 0x39)"

definition is_hex_digit :: "char \<Rightarrow> bool" where
  "is_hex_digit c =
     (let n = (of_char c :: nat)
      in (0x30 \<le> n \<and> n \<le> 0x39) \<or> (0x41 \<le> n \<and> n \<le> 0x46) \<or> (0x61 \<le> n \<and> n \<le> 0x66))"

text \<open>\<open>int(s, 10)\<close> for a string of decimal digits.\<close>

definition decimal :: "string \<Rightarrow> nat" where
  "decimal s = fold (\<lambda>c n. 10 * n + ((of_char c :: nat) - 0x30)) s 0"

text \<open>
  The strings \<open>ipaddress.IPv4Address\<close> accepts: four octets separated by dots, each of
  one to three decimal digits, without a leading zero, at most 255.
\<close>

definition valid_octet :: "string \<Rightarrow> bool" where
  "valid_octet s =
     (s \<noteq> [] \<and> list_all is_digit s \<and> length s \<le> 3
      \<and> (if s = ''0'' then True else hd s \<noteq> CHR ''0'') \<and> decimal s \<le> 255)"

definition valid_ipv4 :: "string \<Rightarrow> bool" where
  "valid_ipv4 s =
     (CHR ''/'' \<notin> set s \<and> s \<noteq> []
      \<and> length (split_str (CHR ''.'') s) = 4 \<and> list_all valid_octet (split_str (CHR ''.'') s))"

text \<open>
  The strings \<open>ipaddress.IPv6Address\<close> accepts.  A scope id after \<open>%\<close> is not empty and
  has no further \<open>%\<close>.  The address has at least three parts between colons; a last part
  with a dot is an IPv4 address and counts as two parts; at most nine parts.  At most one
  inner part is empty (the \<open>::\<close>).  Without it there are eight parts, each a hextet of one
  to four hex digits.  With it, an empty first or last part is allowed only next to it,
  at most seven hextets remain, and those before and after it are well-formed.
\<close>

definition valid_hextet :: "string \<Rightarrow> bool" where
  "valid_hextet h = (h \<noteq> [] \<and> list_all is_hex_digit h \<and> length h \<le> 4)"

definition valid_ipv6 :: "string \<Rightarrow> bool" where
  "valid_ipv6 s =
     (let addr = takeWhile (\<lambda>c. c \<noteq> CHR ''%'') s;
          scope_id = drop 1 (dropWhile (\<lambda>c. c \<noteq> CHR ''%'') s);
          scope_ok = (if CHR ''%'' \<in> set s then scope_id \<noteq> [] \<and> CHR ''%'' \<notin> set scope_id
                      else True);
          parts0 = split_str (CHR '':'') addr;
          v4 = (CHR ''.'' \<in> set (last parts0));
          v4_ok = (if v4 then valid_ipv4 (last parts0) else True);
          parts = (if v4 then butlast parts0 @ [''0'', ''0''] else parts0);
          n = length parts;
          inner = filter (\<lambda>i. parts ! i = []) [1 ..< n - 1]
      in CHR ''/'' \<notin> set s \<and> scope_ok \<and> addr \<noteq> [] \<and> 3 \<le> length parts0 \<and> v4_ok \<and> n \<le> 9
         \<and> length inner \<le> 1
         \<and> (case inner of
               [] \<Rightarrow> n = 8 \<and> list_all valid_hextet parts
             | skip_index # other \<Rightarrow>
                 (let parts_hi = (if hd parts = [] then skip_index - 1 else skip_index);
                      parts_lo = (if last parts = [] then n - skip_index - 2
                                  else n - skip_index - 1)
                  in (if hd parts = [] then parts_hi = 0 else True)
                     \<and> (if last parts = [] then parts_lo = 0 else True)
                     \<and> parts_hi + parts_lo \<le> 7
                     \<and> list_all valid_hextet (take parts_hi parts)
                     \<and> list_all valid_hextet (drop (n - parts_lo) parts))))"

text \<open>
  \<open>repr(s)\<close> of a string: in single quotes, or in double quotes when the string has a
  single quote and no double quote; the quote and the backslash are escaped, tab, newline
  and return are written \<open>\t\<close>, \<open>\n\<close>, \<open>\r\<close>, and the other characters that are not
  printable (below 0x20, 0x7F to 0xA0, 0xAD) as \<open>\x\<close> and two hex digits.
\<close>

definition repr_char :: "char \<Rightarrow> char \<Rightarrow> string" where
  "repr_char quote c =
     (let n = (of_char c :: nat)
      in if c = quote \<or> c = CHR 0x5C then [CHR 0x5C, c]
         else if c = CHR 0x09 then [CHR 0x5C, CHR ''t'']
         else if c = CHR 0x0A then [CHR 0x5C, CHR ''n'']
         else if c = CHR 0x0D then [CHR 0x5C, CHR ''r'']
         else if n < 0x20 \<or> (0x7F \<le> n \<and> n \<le> 0xA0) \<or> n = 0xAD
         then [CHR 0x5C, CHR ''x'', ''0123456789abcdef'' ! (n div 16), ''0123456789abcdef'' ! (n mod 16)]
         else [c])"

definition repr :: "string \<Rightarrow> string" where
  "repr s =
     (let quote = (if CHR 0x27 \<in> set s \<and> CHR 0x22 \<notin> set s then CHR 0x22 else CHR 0x27)
      in [quote] @ concat (map (repr_char quote) s) @ [quote])"

text \<open>
  \<open>_check_bracketed_host\<close>: \<open>None\<close> when it returns, the text of the \<open>ValueError\<close> when
  it raises.  A host that starts with \<open>v\<close> must match \<open>\Av[a-fA-F0-9]+\..+\Z\<close>; any other
  host must be an IPv6 address.
\<close>

definition ipvfuture :: "string \<Rightarrow> bool" where
  "ipvfuture h =
     (let hexs = takeWhile is_hex_digit (drop 1 h);
          rest = dropWhile is_hex_digit (drop 1 h)
      in take 1 h = ''v'' \<and> hexs \<noteq> [] \<and> take 1 rest = ''.'' \<and> drop 1 rest \<noteq> []
         \<and> CHR 0x0A \<notin> set (drop 1 rest))"

definition check_bracketed_host :: "string \<Rightarrow> string option" where
  "check_bracketed_host h =
     (if startswith h ''v''
      then if ipvfuture h then None else Some ''IPvFuture address is invalid''
      else if valid_ipv4 h then Some ''An IPv4 address cannot be in brackets''
      else if valid_ipv6 h then None
      else Some (repr h @ '' does not appear to be an IPv4 or IPv6 address''))"

definition urlsplit_netloc :: "string \<Rightarrow> string result" where
  "urlsplit_netloc url0 =
     (let url = dropWhile (\<lambda>c. (of_char c :: nat) \<le> 0x20) url0;
          url = filter (\<lambda>c. c \<notin> set [CHR 0x09, CHR 0x0D, CHR 0x0A]) url;
          url = strip_scheme url
      in if take 2 url = ''//''
         then (let netloc = takeWhile (\<lambda>c. c \<notin> set ''/?#'') (drop 2 url)
               in if (CHR ''['' \<in> set netloc \<and> CHR '']'' \<notin> set netloc)
                     \<or> (CHR '']'' \<in> set netloc \<and> CHR ''['' \<notin> set netloc)
                  then Inl (ValueError ''Invalid IPv6 URL'')
                  else if CHR ''['' \<in> set netloc \<and> CHR '']'' \<in> set netloc
                  then (let bracketed_host =
                              takeWhile (\<lambda>c. c \<noteq> CHR '']'')
                                (drop 1 (dropWhile (\<lambda>c. c \<noteq> CHR ''['') netloc))
                        in case check_bracketed_host bracketed_host of
                             Some msg \<Rightarrow> Inl (ValueError msg)
                           | None \<Rightarrow> Inr netloc)
                  else Inr netloc)
         else Inr [])"

text \<open>
  The \<open>hostname\<close> attribute of a parse result, computed from the netloc as \<open>_hostinfo\<close>
  does: what follows the last \<open>@\<close>, up to the port's colon (or between the brackets),
  lower-cased up to a \<open>%\<close>; \<open>None\<close> when that is empty.
\<close>

definition hostname :: "string \<Rightarrow> string option" where
  "hostname netloc =
     (let hostinfo = rev (takeWhile (\<lambda>c. c \<noteq> CHR ''@'') (rev netloc));
          h = (if CHR ''['' \<in> set hostinfo
               then takeWhile (\<lambda>c. c \<noteq> CHR '']'') (drop 1 (dropWhile (\<lambda>c. c \<noteq> CHR ''['') hostinfo))
               else takeWhile (\<lambda>c. c \<noteq> CHR '':'') hostinfo)
      in if h = [] then None
         else Some (lower (takeWhile (\<lambda>c. c \<noteq> CHR ''%'') h) @ dropWhile (\<lambda>c. c \<noteq> CHR ''%'') h))"

subsection \<open>Derived notions used in the statements\<close>

text \<open>A string without its last character, when that is a newline.\<close>

definition strip_final_newline :: "string \<Rightarrow> string" where
  "strip_final_newline s = (if s \<noteq> [] \<and> last s = CHR 0x0A then butlast s else s)"

text \<open>\<open>in_tree e r\<close>: the node \<open>e\<close> is \<open>r\<close> or stands anywhere below it.\<close>

inductive in_tree :: "node \<Rightarrow> node \<Rightarrow> bool" where
  self: "in_tree e e"
| below: "c \<in> set cs \<Longrightarrow> in_tree e c \<Longrightarrow> in_tree e (Element t a cs)"

definition frame_family :: "node \<Rightarrow> bool" where
  "frame_family e = (has_tag ''frameset'' e \<or> has_tag ''frame'' e \<or> has_tag ''iframe'' e)"

text \<open>
  The local name of a tag (lxml's \<open>QName(tag).localname\<close>): the tag without its namespace
  in braces.
\<close>

definition local_name :: "string \<Rightarrow> string" where
  "local_name t =
     (if take 1 t = ''{'' \<and> CHR ''}'' \<in> set t
      then drop 1 (dropWhile (\<lambda>c. c \<noteq> CHR ''}'') t) else t)"

subsection \<open>Sample inputs\<close>

text \<open>
  Stand-ins for the parameters, for running the validators on sample inputs.  The
  general statements hold for every choice of the parameters; a stand-in is a table of
  answers at the inputs of the sample runs.  The URL validators pass the listed URLs, as
  Django's \<open>URLValidator\<close> does (its pattern allows a port after the host).
\<close>

definition passes_only :: "string list \<Rightarrow> string \<Rightarrow> string \<Rightarrow> unit result" where
  "passes_only accepted msg value =
     (if value \<in> set accepted then Inr () else Inl (ValidationError msg))"

definition sample_validators :: validators where
  "sample_validators =
     \<lparr> validate_url =
         passes_only [''https://github.com/ietf/ietf'', ''https://github.com:443/ietf'',
                      ''https://gitlab.com/x'', ''ftp://ftp.example.org/pub'']
           ''Enter a valid URL.'',
       validate_http_url =
         passes_only [''https://github.com/ietf/ietf'', ''https://github.com:443/ietf'',
                      ''https://gitlab.com/x'']
           ''Enter a valid URL.'',
       validate_email =
         passes_only [''user@example.org''] ''Enter a valid email address.'' \<rparr>"

definition github_org :: ExtResourceName where
  "github_org = \<lparr> slug = ''github_org'', rtype = \<lparr> type_slug = ''url'', type_name = ''URL'' \<rparr> \<rparr>"

definition bogus_resource :: ExtResourceName where
  "bogus_resource =
     \<lparr> slug = ''tracker'', rtype = \<lparr> type_slug = ''bogus'', type_name = ''Experimental'' \<rparr> \<rparr>"

definition sample_get_mime_type :: "string \<Rightarrow> string \<times> string" where
  "sample_get_mime_type raw =
     (if startswith raw ''virtual'' then (''text/x-c++'', ''us-ascii'')
      else (''text/plain'', ''us-ascii''))"

definition sample_re_compile :: "string \<Rightarrow> string option" where
  "sample_re_compile p =
     (if p = ''a('' then Some ''missing ), unterminated subpattern at position 1'' else None)"

text \<open>
  A well-formed XHTML document with an iframe, and the tree lxml builds for it: parsed as
  XML, every element is in the XHTML namespace (the \<open>xmlns\<close> declaration is not an
  attribute of the tree).
\<close>

definition xhtml_document :: string where
  "xhtml_document =
     ''<html xmlns='' @ dquote @ ''http://www.w3.org/1999/xhtml'' @ dquote @ ''><body>''
     @ ''<iframe src='' @ dquote @ ''x'' @ dquote @ ''></iframe></body></html>''"

definition xhtml_tree :: node where
  "xhtml_tree =
     Element ''{http://www.w3.org/1999/xhtml}html'' []
       [Element ''{http://www.w3.org/1999/xhtml}body'' []
          [Element ''{http://www.w3.org/1999/xhtml}iframe'' [(''src'', ''x'')] []]]"

definition sample_file :: "string \<Rightarrow> string \<Rightarrow> UploadedFile" where
  "sample_file n c = \<lparr> file_name = n, file_size = length c, content = c, pos = 0 \<rparr>"

section \<open>Properties\<close>

subsection \<open>Control characters\<close>

lemma in_range_control: "in_range (CHR 0x00) (CHR 0x1F) c = is_control c"
  by (auto simp: in_range_def is_control_def)

lemma re_match_star_eol:
  "re_match [StarNotRange lo hi, Eol] prev s \<longleftrightarrow>
     (\<forall>c\<in>set (strip_final_newline s). \<not> in_range lo hi c) \<or> (\<forall>c\<in>set s. \<not> in_range lo hi c)"
proof (induction s arbitrary: prev)
  case Nil
  then show ?case by (simp add: strip_final_newline_def)
next
  case (Cons c cs)
  then show ?case
    by (cases cs) (auto simp: strip_final_newline_def)
qed

lemma re_search_from_Bol_Some: "re_search_from (Bol # r) (Some x) s = False"
  by (induction s arbitrary: x) auto

lemma re_search_anchored:
  "re_search [Bol, StarNotRange lo hi, Eol] s \<longleftrightarrow>
     (\<forall>c\<in>set (strip_final_newline s). \<not> in_range lo hi c) \<or> (\<forall>c\<in>set s. \<not> in_range lo hi c)"
  unfolding re_search_def
  by (cases s)
     (simp_all add: re_search_from_Bol_Some re_match_star_eol del: re_match.simps(9,10))

text \<open>
  What the validator accepts: the strings whose characters, a final newline apart, are
  all outside the control range.
\<close>

lemma validate_no_control_chars_passes_iff:
  "validate_no_control_chars s = Inr () \<longleftrightarrow>
     (\<forall>c\<in>set (strip_final_newline s). \<not> is_control c)"
proof -
  have "(\<forall>c\<in>set s. \<not> is_control c) \<Longrightarrow> (\<forall>c\<in>set (strip_final_newline s). \<not> is_control c)"
    by (auto simp: strip_final_newline_def dest: in_set_butlastD)
  then show ?thesis
    by (auto simp: validate_no_control_chars_def RegexValidator_call_def
        no_control_chars_validator_def re_search_anchored in_range_control)
qed

text \<open>
  C1.  The claim: every string with a character in the range 0x00 to 0x1F is rejected.
  At the string \<open>abc\<close> followed by a newline the validator returns normally, although the
  newline (0x0A) is a control character: \<open>$\<close> matches before a final newline.
\<close>

theorem validate_no_control_chars_final_newline:
  "is_control (CHR 0x0A) \<and> CHR 0x0A \<in> set (''abc'' @ [CHR 0x0A])
   \<and> validate_no_control_chars (''abc'' @ [CHR 0x0A]) = Inr ()"
  by (simp add: validate_no_control_chars_passes_iff strip_final_newline_def is_control_def)

subsection \<open>Substrings, replacement and the \<open>virtual\<close> pattern\<close>

lemma startswith_iff: "startswith s p \<longleftrightarrow> (\<exists>t. s = p @ t)"
  by (induction s p rule: startswith.induct) auto

lemma contains_iff: "contains sub s \<longleftrightarrow> (\<exists>a b. s = a @ sub @ b)"
proof (induction s)
  case Nil
  then show ?case by simp
next
  case (Cons c cs)
  show ?case
  proof
    assume "contains sub (c # cs)"
    then consider "startswith (c # cs) sub" | "contains sub cs" by auto
    then show "\<exists>a b. c # cs = a @ sub @ b"
    proof cases
      case 1
      then obtain t where "c # cs = sub @ t" by (auto simp: startswith_iff)
      then have "c # cs = [] @ sub @ t" by simp
      then show ?thesis by blast
    next
      case 2
      then obtain a b where "cs = a @ sub @ b" using Cons.IH by auto
      then have "c # cs = (c # a) @ sub @ b" by simp
      then show ?thesis by blast
    qed
  next
    assume "\<exists>a b. c # cs = a @ sub @ b"
    then obtain a b where ab: "c # cs = a @ sub @ b" by blast
    show "contains sub (c # cs)"
    proof (cases a)
      case Nil
      with ab have "startswith (c # cs) sub" by (auto simp: startswith_iff)
      then show ?thesis by simp
    next
      case (Cons x a')
      with ab have "cs = a' @ sub @ b" by simp
      then have "contains sub cs" using Cons.IH by blast
      then show ?thesis by simp
    qed
  qed
qed

lemma re_search_from_iff:
  "re_search_from p prev s \<longleftrightarrow>
     (\<exists>a b. s = a @ b \<and> re_match p (if a = [] then prev else Some (last a)) b)"
proof (induction s arbitrary: prev)
  case Nil
  then show ?case by simp
next
  case (Cons c cs)
  show ?case
  proof
    assume "re_search_from p prev (c # cs)"
    then consider "re_match p prev (c # cs)" | "re_search_from p (Some c) cs" by auto
    then show "\<exists>a b. c # cs = a @ b \<and> re_match p (if a = [] then prev else Some (last a)) b"
    proof cases
      case 1
      then have "c # cs = [] @ (c # cs) \<and> re_match p (if [] = ([]::string) then prev else Some (last [])) (c # cs)"
        by simp
      then show ?thesis by blast
    next
      case 2
      then obtain a b where ab: "cs = a @ b" "re_match p (if a = [] then Some c else Some (last a)) b"
        using Cons.IH by blast
      then have "c # cs = (c # a) @ b \<and> re_match p (if c # a = [] then prev else Some (last (c # a))) b"
        by (cases a) auto
      then show ?thesis by blast
    qed
  next
    assume "\<exists>a b. c # cs = a @ b \<and> re_match p (if a = [] then prev else Some (last a)) b"
    then obtain a b where ab: "c # cs = a @ b" "re_match p (if a = [] then prev else Some (last a)) b"
      by blast
    show "re_search_from p prev (c # cs)"
    proof (cases a)
      case Nil
      with ab have "re_match p prev (c # cs)" by auto
      then show ?thesis by simp
    next
      case (Cons x a')
      with ab have "cs = a' @ b" "re_match p (if a' = [] then Some c else Some (last a')) b"
        by (auto split: if_splits)
      then have "re_search_from p (Some c) cs" using Cons.IH by blast
      then show ?thesis by simp
    qed
  qed
qed

lemma re_match_Chr_list:
  "re_match (map Chr lit @ r) prev s \<longleftrightarrow>
     (\<exists>t. s = lit @ t \<and> re_match r (if lit = [] then prev else Some (last lit)) t)"
proof (induction lit arbitrary: prev s)
  case Nil
  then show ?case by simp
next
  case (Cons x xs)
  show ?case
  proof (cases s)
    case Nil
    then show ?thesis by simp
  next
    case (Cons c cs)
    then show ?thesis using Cons.IH[of "Some c" cs] by auto
  qed
qed

lemma re_match_Space: "re_match [Space] prev s \<longleftrightarrow> (\<exists>w b. s = w # b \<and> is_space w)"
  by (cases s) auto

lemma re_match_line_literal:
  "re_match (BolM # map Chr lit @ [Space]) prev s \<longleftrightarrow>
     (prev = None \<or> prev = Some (CHR 0x0A)) \<and> (\<exists>w b. s = lit @ w # b \<and> is_space w)"
  unfolding re_match.simps(3) re_match_Chr_list re_match_Space
  by auto

lemma re_search_line_literal:
  "re_search (BolM # map Chr lit @ [Space]) raw \<longleftrightarrow>
     (\<exists>a w b. raw = a @ lit @ w # b \<and> is_space w \<and> (a = [] \<or> last a = CHR 0x0A))"
    (is "?lhs \<longleftrightarrow> ?rhs")
proof
  assume ?lhs
  then obtain a s where as: "raw = a @ s"
      "re_match (BolM # map Chr lit @ [Space]) (if a = [] then None else Some (last a)) s"
    unfolding re_search_def re_search_from_iff by blast
  from as(2) obtain w b where wb: "s = lit @ w # b" "is_space w"
      and prev: "a = [] \<or> last a = CHR 0x0A"
    unfolding re_match_line_literal by (auto split: if_splits)
  from as(1) wb prev show ?rhs by blast
next
  assume ?rhs
  then obtain a w b where r: "raw = a @ lit @ w # b" "is_space w" "a = [] \<or> last a = CHR 0x0A"
    by blast
  then have "re_match (BolM # map Chr lit @ [Space]) (if a = [] then None else Some (last a)) (lit @ w # b)"
    unfolding re_match_line_literal by auto
  with r(1) show ?lhs
    unfolding re_search_def re_search_from_iff by blast
qed

lemma re_search_virtual_regex:
  "re_search virtual_regex raw \<longleftrightarrow>
     (\<exists>a w b. raw = a @ ''virtual'' @ w # b \<and> is_space w \<and> (a = [] \<or> last a = CHR 0x0A))"
  unfolding virtual_regex_def by (rule re_search_line_literal)

lemma startswith_take: "startswith s p \<longleftrightarrow> take (length p) s = p"
  by (induction s p rule: startswith.induct) auto

lemma take_append_le: "n \<le> length xs \<Longrightarrow> take n (xs @ ys) = take n xs"
  by simp

lemma replace_no_occurrence:
  "old \<noteq> [] \<Longrightarrow> \<not> contains old s \<Longrightarrow> replace old new s = s"
  by (induction s) auto

lemma replace_first_occurrence:
  assumes "old \<noteq> []" and "\<not> contains old (a @ butlast old)"
  shows "replace old new (a @ old @ b) = a @ new @ replace old new b"
  using assms(2)
proof (induction a)
  case Nil
  have "startswith (old @ b) old" by (simp add: startswith_iff)
  with assms(1) show ?case by (cases old) auto
next
  case (Cons x a)
  from Cons.prems have ns: "\<not> startswith (x # a @ butlast old) old"
    and nc: "\<not> contains old (a @ butlast old)"
    by auto
  have le: "length old \<le> length (x # a @ butlast old)" using assms(1) by simp
  have "old @ b = butlast old @ (last old # b)" using assms(1) by simp
  then have eq: "x # a @ old @ b = (x # a @ butlast old) @ (last old # b)" by simp
  have "take (length old) (x # a @ old @ b) = take (length old) (x # a @ butlast old)"
    unfolding eq by (rule take_append_le[OF le])
  with ns have "\<not> startswith (x # a @ old @ b) old"
    unfolding startswith_take by simp
  with assms(1) Cons.IH[OF nc] show ?case by simp
qed

subsection \<open>The regular-expression-string validator\<close>

text \<open>
  C6.  The validator fails on every string that does not compile, fails on every string
  that contains \<open>-*\<close> whether or not it compiles, and passes exactly the strings that
  compile and do not contain \<open>-*\<close>.
\<close>

theorem RegexStringValidator_call_passes_iff:
  "(RegexStringValidator_call re_compile value = Inr () \<longleftrightarrow>
      re_compile value = None \<and> \<not> (\<exists>a b. value = a @ ''-*'' @ b))
   \<and> (re_compile value \<noteq> None \<longrightarrow>
        (\<exists>m. RegexStringValidator_call re_compile value = Inl (ValidationError m)))
   \<and> ((\<exists>a b. value = a @ ''-*'' @ b) \<longrightarrow>
        (\<exists>m. RegexStringValidator_call re_compile value = Inl (ValidationError m)))"
  unfolding contains_iff[symmetric]
  by (auto simp: RegexStringValidator_call_def split: option.splits)

theorem RegexStringValidator_call_passes_iff_witness:
  "sample_re_compile ''a('' \<noteq> None
   \<and> (\<exists>m. RegexStringValidator_call sample_re_compile ''a('' = Inl (ValidationError m))
   \<and> sample_re_compile ''a-*b'' = None
   \<and> (\<exists>m. RegexStringValidator_call sample_re_compile ''a-*b'' = Inl (ValidationError m))
   \<and> RegexStringValidator_call sample_re_compile ''a[-]*b'' = Inr ()"
proof -
  have c1: "sample_re_compile ''a('' \<noteq> None" and c2: "sample_re_compile ''a-*b'' = None"
    and c3: "sample_re_compile ''a[-]*b'' = None"
    by (simp_all add: sample_re_compile_def)
  have "''a-*b'' = ''a'' @ ''-*'' @ ''b''" by simp
  then have d2: "\<exists>a b. ''a-*b'' = a @ ''-*'' @ b" by blast
  have d3: "\<not> (\<exists>a b. ''a[-]*b'' = a @ ''-*'' @ b)"
    unfolding contains_iff[symmetric] by simp
  from RegexStringValidator_call_passes_iff[of sample_re_compile "''a(''"] c1
  have r1: "\<exists>m. RegexStringValidator_call sample_re_compile ''a('' = Inl (ValidationError m)"
    by blast
  from RegexStringValidator_call_passes_iff[of sample_re_compile "''a-*b''"] d2
  have r2: "\<exists>m. RegexStringValidator_call sample_re_compile ''a-*b'' = Inl (ValidationError m)"
    by blast
  from RegexStringValidator_call_passes_iff[of sample_re_compile "''a[-]*b''"] c3 d3
  have r3: "RegexStringValidator_call sample_re_compile ''a[-]*b'' = Inr ()"
    by blast
  from c1 c2 r1 r2 r3 show ?thesis by blast
qed

text \<open>
  C9.  Every instance compares equal to every instance, \<open>__ne__\<close> is the negation of
  \<open>__eq__\<close>, and an instance never compares equal to an object that is not an instance.
\<close>

theorem RegexStringValidator_eq_instances:
  "RegexStringValidator_eq a (ValidatorObject b)
   \<and> RegexStringValidator_ne a other = (\<not> RegexStringValidator_eq a other)
   \<and> ((\<forall>b. other \<noteq> ValidatorObject b) \<longrightarrow> \<not> RegexStringValidator_eq a other)"
  by (cases other) (simp_all add: RegexStringValidator_eq_def RegexStringValidator_ne_def)

theorem RegexStringValidator_eq_instances_witness:
  "(\<forall>b. StrObject ''-*'' \<noteq> ValidatorObject b)
   \<and> \<not> RegexStringValidator_eq RegexStringValidator (StrObject ''-*'')
   \<and> RegexStringValidator_ne RegexStringValidator (StrObject ''-*'')
   \<and> RegexStringValidator_eq RegexStringValidator (ValidatorObject RegexStringValidator)"
  using RegexStringValidator_eq_instances[of RegexStringValidator RegexStringValidator "StrObject ''-*''"]
  by simp

subsection \<open>File size\<close>

lemma largest_unit_le: "1 \<le> n \<Longrightarrow> unit_bytes (largest_unit n) \<le> n"
  by (simp add: largest_unit_def)

lemma largest_unit_max: "unit_bytes u \<le> n \<Longrightarrow> unit_bytes u \<le> unit_bytes (largest_unit n)"
  by (cases u) (simp_all add: largest_unit_def)

lemma round_tenths_nearest:
  assumes "0 < u"
  shows "2 * u * round_tenths n u \<le> 20 * n + u \<and> 20 * n + u < 2 * u * round_tenths n u + 2 * u"
proof -
  have "0 < 2 * u" using assms by simp
  have "2 * u * ((20 * n + u) div (2 * u)) + (20 * n + u) mod (2 * u) = 20 * n + u"
    by (rule mult_div_mod_eq)
  moreover have "(20 * n + u) mod (2 * u) < 2 * u"
    using \<open>0 < 2 * u\<close> by (rule mod_less_divisor)
  ultimately show ?thesis unfolding round_tenths_def by linarith
qed

lemma unit_bytes_pos: "0 < unit_bytes u"
  by (cases u) simp_all

lemma show_nat_digit: "n < 10 \<Longrightarrow> show_nat n = [''0123456789'' ! n]"
  by (simp add: show_nat.simps)

lemma contains_appendI: "contains sub (a @ sub @ b)"
  unfolding contains_iff by blast

lemma validate_file_size_any_format:
  "validate_file_size fmt M f =
     (if file_size f \<le> M then Inr ()
      else Inl (ValidationError
        (''Please keep filesize under '' @ fmt M
         @ ''. Requested upload size was '' @ fmt (file_size f))))"
  by (simp add: validate_file_size_def)

lemma filesizeformat_megabyte: "filesizeformat 1048576 = ''1.0 MB''"
  by (simp add: filesizeformat_def largest_unit_def round_tenths_def show_nat_digit)

text \<open>
  C5.  The validator passes exactly when the size is at most the maximum.  When it fails,
  the message contains the renderings of the maximum and of the size.  A rendering uses
  the largest unit whose size is at most the number of bytes, and the number of tenths
  nearest to the quotient; one mebibyte is rendered \<open>1.0 MB\<close>.
\<close>

theorem validate_file_size_limit:
  "(validate_file_size filesizeformat M f = Inr () \<longleftrightarrow> file_size f \<le> M)
   \<and> (M < file_size f \<longrightarrow>
        (\<exists>m. validate_file_size filesizeformat M f = Inl (ValidationError m)
             \<and> contains (filesizeformat M) m \<and> contains (filesizeformat (file_size f)) m))
   \<and> (1 \<le> n \<longrightarrow> unit_bytes (largest_unit n) \<le> n)
   \<and> (unit_bytes u \<le> n \<longrightarrow> unit_bytes u \<le> unit_bytes (largest_unit n))
   \<and> 2 * unit_bytes (largest_unit n) * round_tenths n (unit_bytes (largest_unit n))
        \<le> 20 * n + unit_bytes (largest_unit n)
   \<and> 20 * n + unit_bytes (largest_unit n)
        < 2 * unit_bytes (largest_unit n) * round_tenths n (unit_bytes (largest_unit n))
          + 2 * unit_bytes (largest_unit n)
   \<and> filesizeformat n =
        show_nat (round_tenths n (unit_bytes (largest_unit n)) div 10) @ ''.''
        @ show_nat (round_tenths n (unit_bytes (largest_unit n)) mod 10) @ '' ''
        @ unit_label (largest_unit n)
   \<and> filesizeformat 1048576 = ''1.0 MB''"
proof -
  have a: "validate_file_size filesizeformat M f = Inr () \<longleftrightarrow> file_size f \<le> M"
    by (simp add: validate_file_size_any_format)
  have b: "M < file_size f \<longrightarrow>
        (\<exists>m. validate_file_size filesizeformat M f = Inl (ValidationError m)
             \<and> contains (filesizeformat M) m \<and> contains (filesizeformat (file_size f)) m)"
  proof
    assume "M < file_size f"
    let ?m = "''Please keep filesize under '' @ filesizeformat M
         @ ''. Requested upload size was '' @ filesizeformat (file_size f)"
    have "validate_file_size filesizeformat M f = Inl (ValidationError ?m)"
      using \<open>M < file_size f\<close> by (simp add: validate_file_size_any_format)
    moreover have "contains (filesizeformat M) ?m"
      by (rule contains_appendI)
    moreover have "?m = (''Please keep filesize under '' @ filesizeformat M
         @ ''. Requested upload size was '') @ filesizeformat (file_size f) @ []"
      by simp
    then have "contains (filesizeformat (file_size f)) ?m"
      unfolding contains_iff by blast
    ultimately show "\<exists>m. validate_file_size filesizeformat M f = Inl (ValidationError m)
             \<and> contains (filesizeformat M) m \<and> contains (filesizeformat (file_size f)) m"
      by blast
  qed
  have c: "1 \<le> n \<longrightarrow> unit_bytes (largest_unit n) \<le> n"
    by (simp add: largest_unit_le)
  have d: "unit_bytes u \<le> n \<longrightarrow> unit_bytes u \<le> unit_bytes (largest_unit n)"
    by (simp add: largest_unit_max)
  note e = round_tenths_nearest[OF unit_bytes_pos, of "largest_unit n" n]
  have g: "filesizeformat n =
        show_nat (round_tenths n (unit_bytes (largest_unit n)) div 10) @ ''.''
        @ show_nat (round_tenths n (unit_bytes (largest_unit n)) mod 10) @ '' ''
        @ unit_label (largest_unit n)"
    by (simp add: filesizeformat_def Let_def)
  from a b c d e g filesizeformat_megabyte show ?thesis by blast
qed

theorem validate_file_size_limit_witness:
  "validate_file_size filesizeformat 1048576 (sample_file ''one.bin'' ''x'') = Inr ()
   \<and> (1048576::nat) < 2097152
   \<and> (\<exists>m. validate_file_size filesizeformat 1048576
             \<lparr> file_name = ''big.bin'', file_size = 2097152, content = [], pos = 0 \<rparr>
           = Inl (ValidationError m)
         \<and> contains (filesizeformat 1048576) m \<and> contains (filesizeformat 2097152) m)
   \<and> unit_bytes (largest_unit 1536) \<le> 1536
   \<and> unit_bytes KB \<le> unit_bytes (largest_unit 1048576)"
proof -
  let ?big = "\<lparr> file_name = ''big.bin'', file_size = 2097152, content = [], pos = 0 \<rparr>"
  have s1: "file_size (sample_file ''one.bin'' ''x'') \<le> 1048576"
    by (simp add: sample_file_def)
  have s2: "(1048576::nat) < file_size ?big" by simp
  have s3: "(1::nat) \<le> 1536" by simp
  have s4: "unit_bytes KB \<le> 1048576" by simp
  from validate_file_size_limit[of 1048576 "sample_file ''one.bin'' ''x''" 1536 KB] s1 s3
  have r1: "validate_file_size filesizeformat 1048576 (sample_file ''one.bin'' ''x'') = Inr ()"
    and r3: "unit_bytes (largest_unit 1536) \<le> 1536"
    by blast+
  from validate_file_size_limit[of 1048576 ?big 1048576 KB] s2 s4
  have r2: "\<exists>m. validate_file_size filesizeformat 1048576 ?big = Inl (ValidationError m)
         \<and> contains (filesizeformat 1048576) m \<and> contains (filesizeformat (file_size ?big)) m"
    and r4: "unit_bytes KB \<le> unit_bytes (largest_unit 1048576)"
    by blast+
  from r2 have r2': "\<exists>m. validate_file_size filesizeformat 1048576 ?big = Inl (ValidationError m)
         \<and> contains (filesizeformat 1048576) m \<and> contains (filesizeformat 2097152) m"
    by simp
  from r1 r2' r3 r4 show ?thesis by simp
qed

subsection \<open>MIME type\<close>

lemma read_after_open:
  "file_read (file_open f) = (content f, f\<lparr>pos := length (content f)\<rparr>)"
  by (simp add: file_read_def file_open_def)

lemma validate_mime_type_unfold:
  "validate_mime_type g f valid =
     (let raw = content f;
          p = (if fst (g raw) = ''text/x-c++'' \<and> re_search virtual_regex raw
               then g (replace ''virtual'' '' virtual'' raw) else g raw)
      in (case valid of
            None \<Rightarrow> Inr p
          | Some vs \<Rightarrow>
              if vs \<noteq> [] \<and> fst p \<notin> set vs
              then Inl (ValidationError
                (''Found content with unexpected mime type: '' @ fst p
                 @ ''.  Expected one of '' @ join '', '' vs @ ''.''))
              else Inr p,
          f\<lparr>pos := length (content f)\<rparr>))"
  by (simp add: validate_mime_type_def read_after_open Let_def split: prod.splits option.splits)

text \<open>
  C4, as the code has it.  The validator reads the whole content and sniffs it.  When the
  sniffed type is \<open>text/x-c++\<close> and some line of the content begins with \<open>virtual\<close>
  followed by a whitespace byte, the content is sniffed again with \<open>virtual\<close> replaced by
  \<open> virtual\<close> throughout.  When the allowed list is not empty and the resulting type is not
  in it, the validator fails with a message that lists the type and the allowed list;
  otherwise it returns the type and the encoding.  The read position ends at the end of
  the content.
\<close>

theorem validate_mime_type_result:
  assumes "get_mime_type (content f) = (t0, e0)"
    and "get_mime_type (replace ''virtual'' '' virtual'' (content f)) = (t1, e1)"
    and "(t, e) =
           (if t0 = ''text/x-c++''
               \<and> (\<exists>a w b. content f = a @ ''virtual'' @ w # b \<and> is_space w
                            \<and> (a = [] \<or> last a = CHR 0x0A))
            then (t1, e1) else (t0, e0))"
  shows "fst (validate_mime_type get_mime_type f valid) =
           (if \<exists>vs. valid = Some vs \<and> vs \<noteq> [] \<and> t \<notin> set vs
            then Inl (ValidationError
              (''Found content with unexpected mime type: '' @ t
               @ ''.  Expected one of '' @ join '', '' (the valid) @ ''.''))
            else Inr (t, e))
       \<and> snd (validate_mime_type get_mime_type f valid) = f\<lparr>pos := length (content f)\<rparr>"
proof -
  let ?p = "if fst (get_mime_type (content f)) = ''text/x-c++'' \<and> re_search virtual_regex (content f)
            then get_mime_type (replace ''virtual'' '' virtual'' (content f))
            else get_mime_type (content f)"
  define V where "V \<longleftrightarrow> (\<exists>a w b. content f = a @ ''virtual'' @ w # b \<and> is_space w
                            \<and> (a = [] \<or> last a = CHR 0x0A))"
  have s: "re_search virtual_regex (content f) = V"
    unfolding V_def by (rule re_search_virtual_regex)
  have "(t, e) = (if t0 = ''text/x-c++'' \<and> V then (t1, e1) else (t0, e0))"
    using assms(3) unfolding V_def .
  then have p: "?p = (t, e)"
    unfolding s using assms(1,2) by simp
  show ?thesis
    unfolding validate_mime_type_unfold Let_def p
    by (cases valid) auto
qed

theorem validate_mime_type_result_witness:
  "fst (validate_mime_type sample_get_mime_type (sample_file ''draft.txt'' ''virtual meeting'')
          (Some [''text/plain''])) = Inr (''text/plain'', ''us-ascii'')
   \<and> fst (validate_mime_type sample_get_mime_type (sample_file ''draft.txt'' ''virtual meeting'')
          (Some [''application/pdf'', ''text/xml'']))
       = Inl (ValidationError
           ''Found content with unexpected mime type: text/plain.  Expected one of application/pdf, text/xml.'')"
proof -
  let ?f = "sample_file ''draft.txt'' ''virtual meeting''"
  have c: "content ?f = ''virtual meeting''" by (simp add: sample_file_def)
  have g0: "sample_get_mime_type (content ?f) = (''text/x-c++'', ''us-ascii'')"
    unfolding c by (simp add: sample_get_mime_type_def)
  have r: "replace ''virtual'' '' virtual'' (content ?f) = '' virtual meeting''"
    unfolding c by code_simp
  have g1: "sample_get_mime_type (replace ''virtual'' '' virtual'' (content ?f))
              = (''text/plain'', ''us-ascii'')"
    unfolding r by (simp add: sample_get_mime_type_def)
  have "content ?f = [] @ ''virtual'' @ CHR '' '' # ''meeting'' \<and> is_space (CHR '' '')
        \<and> ([] = ([]::string) \<or> last [] = CHR 0x0A)"
    unfolding c by (simp add: is_space_def)
  then have line: "\<exists>a w b. content ?f = a @ ''virtual'' @ w # b \<and> is_space w
                     \<and> (a = [] \<or> last a = CHR 0x0A)"
    by blast
  have te: "(''text/plain'', ''us-ascii'') =
           (if ''text/x-c++'' = ''text/x-c++''
               \<and> (\<exists>a w b. content ?f = a @ ''virtual'' @ w # b \<and> is_space w
                            \<and> (a = [] \<or> last a = CHR 0x0A))
            then (''text/plain'', ''us-ascii'') else (''text/x-c++'', ''us-ascii''))"
    using line by simp
  from validate_mime_type_result[OF g0 g1 te, of "Some [''text/plain'']"]
       validate_mime_type_result[OF g0 g1 te, of "Some [''application/pdf'', ''text/xml'']"]
  show ?thesis by simp
qed

text \<open>
  With an empty allowed list the validator passes content whose type is not in the list.
\<close>

theorem validate_mime_type_empty_allowed_set:
  "''text/plain'' \<notin> set []
   \<and> fst (validate_mime_type sample_get_mime_type (sample_file ''notes.txt'' ''hello'') (Some []))
       = Inr (''text/plain'', ''us-ascii'')"
  by (simp add: validate_mime_type_unfold sample_get_mime_type_def sample_file_def)

text \<open>
  C10.  When the allowed list is \<open>None\<close> or empty the validator never fails and returns
  the sniffed pair; for a non-empty list it fails exactly when the type is not in it.
\<close>

theorem validate_mime_type_falsy_valid:
  assumes "p = (if fst (get_mime_type (content f)) = ''text/x-c++''
                   \<and> re_search virtual_regex (content f)
                then get_mime_type (replace ''virtual'' '' virtual'' (content f))
                else get_mime_type (content f))"
  shows "(valid = None \<or> valid = Some [] \<longrightarrow>
            fst (validate_mime_type get_mime_type f valid) = Inr p)
       \<and> (\<forall>vs. valid = Some vs \<and> vs \<noteq> [] \<longrightarrow>
            ((\<exists>m. fst (validate_mime_type get_mime_type f valid) = Inl (ValidationError m))
               \<longleftrightarrow> fst p \<notin> set vs))"
  unfolding validate_mime_type_unfold Let_def assms
  by (cases valid) auto

theorem validate_mime_type_falsy_valid_witness:
  "fst (validate_mime_type sample_get_mime_type (sample_file ''main.cc'' ''virtual'') None)
     = Inr (''text/x-c++'', ''us-ascii'')
   \<and> fst (validate_mime_type sample_get_mime_type (sample_file ''main.cc'' ''virtual'') (Some []))
     = Inr (''text/x-c++'', ''us-ascii'')
   \<and> (\<exists>m. fst (validate_mime_type sample_get_mime_type (sample_file ''main.cc'' ''virtual'')
               (Some [''text/plain''])) = Inl (ValidationError m))"
proof -
  let ?f = "sample_file ''main.cc'' ''virtual''"
  have c: "content ?f = ''virtual''" by (simp add: sample_file_def)
  have nv: "\<not> re_search virtual_regex (content ?f)"
    unfolding c by code_simp
  have p: "(''text/x-c++'', ''us-ascii'') =
        (if fst (sample_get_mime_type (content ?f)) = ''text/x-c++''
            \<and> re_search virtual_regex (content ?f)
         then sample_get_mime_type (replace ''virtual'' '' virtual'' (content ?f))
         else sample_get_mime_type (content ?f))"
    using nv unfolding c by (simp add: sample_get_mime_type_def)
  from validate_mime_type_falsy_valid[OF p, of None]
       validate_mime_type_falsy_valid[OF p, of "Some []"]
       validate_mime_type_falsy_valid[OF p, of "Some [''text/plain'']"]
  show ?thesis by simp
qed

subsection \<open>File extension\<close>

lemma rfind_from_cases:
  "(c \<notin> set xs \<and> rfind_from xs c i found = found)
   \<or> (\<exists>j < length xs. xs ! j = c \<and> c \<notin> set (drop (Suc j) xs) \<and> rfind_from xs c i found = i + int j)"
proof (induction xs arbitrary: i found)
  case Nil
  then show ?case by simp
next
  case (Cons x xs)
  let ?f = "if x = c then i else found"
  from Cons.IH[of "i + 1" ?f]
  consider (none) "c \<notin> set xs" "rfind_from xs c (i + 1) ?f = ?f"
    | (some) j where "j < length xs" "xs ! j = c" "c \<notin> set (drop (Suc j) xs)"
        "rfind_from xs c (i + 1) ?f = i + 1 + int j"
    by blast
  then show ?case
  proof cases
    case none
    show ?thesis
    proof (cases "x = c")
      case True
      with none have "0 < length (x # xs) \<and> (x # xs) ! 0 = c \<and> c \<notin> set (drop (Suc 0) (x # xs))
          \<and> rfind_from (x # xs) c i found = i + int 0"
        by simp
      then show ?thesis by blast
    next
      case False
      with none show ?thesis by simp
    qed
  next
    case some
    then have "Suc j < length (x # xs) \<and> (x # xs) ! Suc j = c \<and> c \<notin> set (drop (Suc (Suc j)) (x # xs))
        \<and> rfind_from (x # xs) c i found = i + int (Suc j)"
      by simp
    then show ?thesis by blast
  qed
qed

lemma rfind_cases:
  "(c \<notin> set p \<and> rfind p c = - 1)
   \<or> (\<exists>j < length p. p ! j = c \<and> c \<notin> set (drop (Suc j) p) \<and> rfind p c = int j)"
  using rfind_from_cases[of c p 0 "- 1"] by (simp add: rfind_def)

lemma splitext_loop_cases:
  "splitext_loop p i d = (p, []) \<or> (i < d \<and> splitext_loop p i d = (take (nat d) p, drop (nat d) p))"
proof (induction p i d rule: splitext_loop.induct)
  case (1 p i d)
  show ?case
  proof (cases "i < d")
    case False
    then show ?thesis by (simp add: splitext_loop.simps[of p i d])
  next
    case True
    show ?thesis
    proof (cases "take 1 (drop (nat i) p) \<noteq> ''.''")
      case True
      with \<open>i < d\<close> show ?thesis by (simp add: splitext_loop.simps[of p i d])
    next
      case False
      with \<open>i < d\<close> "1.IH" have
        "splitext_loop p (i + 1) d = (p, [])
         \<or> (i + 1 < d \<and> splitext_loop p (i + 1) d = (take (nat d) p, drop (nat d) p))"
        by simp
      with False \<open>i < d\<close> show ?thesis by (auto simp: splitext_loop.simps[of p i d])
    qed
  qed
qed

lemma splitext_cases:
  "splitext p = (p, [])
   \<or> (\<exists>j < length p. p ! j = CHR ''.'' \<and> CHR ''.'' \<notin> set (drop (Suc j) p)
        \<and> CHR ''/'' \<notin> set (drop j p) \<and> splitext p = (take j p, drop j p))"
proof -
  let ?s = "rfind p (CHR ''/'')" and ?d = "rfind p (CHR ''.'')"
  show ?thesis
  proof (cases "?d > ?s")
    case False
    then show ?thesis by (simp add: splitext_def)
  next
    case True
    have nat_Suc: "nat (int k + 1) = Suc k" for k by simp
    from rfind_cases[of "CHR ''/''" p] have s: "- 1 \<le> ?s" "CHR ''/'' \<notin> set (drop (nat (?s + 1)) p)"
      by (auto simp: nat_Suc)
    from True s(1) rfind_cases[of "CHR ''.''" p] obtain j where
      j: "j < length p" "p ! j = CHR ''.''" "CHR ''.'' \<notin> set (drop (Suc j) p)" "?d = int j"
      by auto
    from True j(4) have "nat (?s + 1) \<le> j" by simp
    then have "set (drop j p) \<subseteq> set (drop (nat (?s + 1)) p)"
      by (simp add: set_drop_subset_set_drop)
    with s(2) have nosep: "CHR ''/'' \<notin> set (drop j p)" by blast
    from splitext_loop_cases[of p "?s + 1" ?d] True j(4)
    have "splitext p = (p, []) \<or> splitext p = (take j p, drop j p)"
      by (auto simp: splitext_def)
    with j nosep show ?thesis by blast
  qed
qed

lemma splitext_append: "splitext p = (base, ext) \<Longrightarrow> base @ ext = p"
  using splitext_cases[of p] by auto

lemma splitext_ext_shape:
  "splitext p = (base, ext) \<Longrightarrow>
     ext = [] \<or> (\<exists>e. ext = CHR ''.'' # e \<and> CHR ''.'' \<notin> set e \<and> CHR ''/'' \<notin> set e)"
proof -
  assume a: "splitext p = (base, ext)"
  from splitext_cases[of p] show ?thesis
  proof
    assume "splitext p = (p, [])"
    with a show ?thesis by simp
  next
    assume "\<exists>j<length p. p ! j = CHR ''.'' \<and> CHR ''.'' \<notin> set (drop (Suc j) p)
        \<and> CHR ''/'' \<notin> set (drop j p) \<and> splitext p = (take j p, drop j p)"
    then obtain j where j: "j < length p" "p ! j = CHR ''.''" "CHR ''.'' \<notin> set (drop (Suc j) p)"
        "CHR ''/'' \<notin> set (drop j p)" "splitext p = (take j p, drop j p)"
      by blast
    from j(1,2) have d: "drop j p = CHR ''.'' # drop (Suc j) p"
      by (simp add: Cons_nth_drop_Suc[symmetric])
    with j(4) have nosep: "CHR ''/'' \<notin> set (drop (Suc j) p)" by auto
    from a j(5) d have "ext = CHR ''.'' # drop (Suc j) p" by simp
    with j(3) nosep show ?thesis by blast
  qed
qed

text \<open>
  C3, as the code has it.  The name is split into a base and an extension (empty, or a
  dot followed by characters that are neither a dot nor a slash).  The validator fails,
  reporting the extension and the allowed list, when the lower-cased extension is not in
  the list; on success it returns the extension as it stands in the name, not
  lower-cased.
\<close>

theorem validate_file_extension_returns_found_ext:
  assumes "splitext (file_name f) = (base, ext)"
  shows "base @ ext = file_name f
       \<and> (ext = [] \<or> (\<exists>e. ext = CHR ''.'' # e \<and> CHR ''.'' \<notin> set e \<and> CHR ''/'' \<notin> set e))
       \<and> validate_file_extension f valid =
           (if lower ext \<in> set valid then Inr ext
            else Inl (ValidationError
              (''Found an unexpected extension: '' @ ext
               @ ''.  Expected one of '' @ join '','' valid)))"
proof -
  have "validate_file_extension f valid =
           (if lower ext \<in> set valid then Inr ext
            else Inl (ValidationError
              (''Found an unexpected extension: '' @ ext
               @ ''.  Expected one of '' @ join '','' valid)))"
    using assms by (simp add: validate_file_extension_def)
  with splitext_append[OF assms] splitext_ext_shape[OF assms] show ?thesis by blast
qed

theorem validate_file_extension_returns_found_ext_witness:
  "splitext (file_name (sample_file ''README.TXT'' ''hello'')) = (''README'', ''.TXT'')
   \<and> lower ''.TXT'' = ''.txt''
   \<and> validate_file_extension (sample_file ''README.TXT'' ''hello'') [''.pdf'', ''.txt''] = Inr ''.TXT''
   \<and> validate_file_extension (sample_file ''README.TXT'' ''hello'') [''.pdf'', ''.doc'']
       = Inl (ValidationError ''Found an unexpected extension: .TXT.  Expected one of .pdf,.doc'')"
proof -
  have s: "splitext (file_name (sample_file ''README.TXT'' ''hello'')) = (''README'', ''.TXT'')"
    by code_simp
  have l: "lower ''.TXT'' = ''.txt''"
    by code_simp
  from validate_file_extension_returns_found_ext[OF s, of "[''.pdf'', ''.txt'']"]
       validate_file_extension_returns_found_ext[OF s, of "[''.pdf'', ''.doc'']"] s l
  show ?thesis by simp
qed

text \<open>
  For \<open>README.TXT\<close> and the allowed list \<open>.pdf\<close>, \<open>.txt\<close> the validator returns \<open>.TXT\<close>.
\<close>

theorem validate_file_extension_keeps_case:
  "validate_file_extension (sample_file ''README.TXT'' ''hello'') [''.pdf'', ''.txt''] = Inr ''.TXT''
   \<and> validate_file_extension (sample_file ''README.TXT'' ''hello'') [''.pdf'', ''.txt''] \<noteq> Inr ''.txt''"
proof -
  have "validate_file_extension (sample_file ''README.TXT'' ''hello'') [''.pdf'', ''.txt''] = Inr ''.TXT''"
    by code_simp
  then show ?thesis by simp
qed

subsection \<open>HTML frames\<close>

lemma iter_self: "e \<in> set (iter e)"
  by (cases e) auto

lemma in_tree_iter: "in_tree e r \<Longrightarrow> e \<in> set (iter r)"
  by (induction rule: in_tree.induct) (auto simp: iter_self)

lemma iter_in_tree: "e \<in> set (iter r) \<Longrightarrow> in_tree e r"
proof (induction r)
  case (Element t a cs)
  then show ?case by (auto intro: in_tree.intros)
next
  case (Comment c)
  then show ?case by (auto intro: in_tree.intros)
qed

lemma set_iter: "e \<in> set (iter r) \<longleftrightarrow> in_tree e r"
  using in_tree_iter iter_in_tree by blast

lemma PyQuery_call_nonempty:
  "PyQuery_call q s \<noteq> [] \<longleftrightarrow> (\<exists>r e. r \<in> set q \<and> in_tree e r \<and> has_tag s e)"
proof -
  have "PyQuery_call q s \<noteq> [] \<longleftrightarrow> (\<exists>r\<in>set q. \<exists>e\<in>set (iter r). has_tag s e)"
    by (auto simp: PyQuery_call_def filter_empty_conv)
  also have "\<dots> \<longleftrightarrow> (\<exists>r e. r \<in> set q \<and> in_tree e r \<and> has_tag s e)"
    unfolding set_iter[symmetric] by blast
  finally show ?thesis .
qed

lemma py_or_nonempty: "py_or a b \<noteq> [] \<longleftrightarrow> a \<noteq> [] \<or> b \<noteq> []"
  by (simp add: py_or_def)

lemma frame_family_query:
  "py_or (py_or (PyQuery_call q ''frameset'') (PyQuery_call q ''frame''))
     (PyQuery_call q ''iframe'') \<noteq> []
   \<longleftrightarrow> (\<exists>r e. r \<in> set q \<and> in_tree e r \<and> frame_family e)"
  unfolding py_or_nonempty PyQuery_call_nonempty frame_family_def by blast

text \<open>
  What the validator does, for every parser: it reads the whole content; when the parser
  raises, so does the validator, with the parser's exception; otherwise it raises
  \<open>ValidationError\<close> exactly when some element of the parsed trees has the tag
  \<open>frameset\<close>, \<open>frame\<close> or \<open>iframe\<close>, with no namespace in it.
\<close>

lemma validate_no_html_frame_cases:
  "validate_no_html_frame PyQuery f =
     (case PyQuery (content f) of
        Inl e \<Rightarrow> Inl e
      | Inr q \<Rightarrow>
          if \<exists>r e. r \<in> set q \<and> in_tree e r \<and> frame_family e
          then Inl (ValidationError
            ''Found content with html frames.  Please upload a file that does not use frames'')
          else Inr (),
      f\<lparr>pos := length (content f)\<rparr>)"
  unfolding validate_no_html_frame_def read_after_open Let_def prod.case frame_family_query
  by (cases "PyQuery (content f)") simp_all

text \<open>
  A document that is parsed to a tree with an \<open>iframe\<close> element in no namespace is
  rejected.
\<close>

lemma validate_no_html_frame_plain_iframe:
  "fst (validate_no_html_frame
          (PyQuery(d := Inr [Element ''html'' [] [Element ''body'' []
                                [Element ''iframe'' [(''src'', ''x'')] []]]]))
          (sample_file n d))
     = Inl (ValidationError
         ''Found content with html frames.  Please upload a file that does not use frames'')"
proof -
  let ?e = "Element ''iframe'' [(''src'', ''x'')] []"
  let ?r = "Element ''html'' [] [Element ''body'' [] [?e]]"
  have "in_tree ?e ?r" unfolding set_iter[symmetric] by simp
  moreover have "frame_family ?e" by (simp add: frame_family_def)
  ultimately have "\<exists>r e. r \<in> set [?r] \<and> in_tree e r \<and> frame_family e" by auto
  then show ?thesis
    unfolding validate_no_html_frame_cases by (simp add: sample_file_def)
qed

lemma xhtml_tree_no_frame_family: "\<not> (\<exists>r e. r \<in> set [xhtml_tree] \<and> in_tree e r \<and> frame_family e)"
  unfolding set_iter[symmetric] by (auto simp: xhtml_tree_def frame_family_def)

text \<open>
  C8.  The claim: the validator fails whenever an \<open>iframe\<close> element is present anywhere in
  the parsed tree.  The XHTML document \<open>xhtml_document\<close> is well-formed XML, so it is parsed
  to \<open>xhtml_tree\<close>, whose elements carry the XHTML namespace.  The tree has an element with
  local name \<open>iframe\<close>, the selector \<open>iframe\<close> does not select it, and the validator
  returns normally, for every parser that parses the document to this tree.
\<close>

theorem validate_no_html_frame_xhtml_iframe:
  "local_name ''{http://www.w3.org/1999/xhtml}iframe'' = ''iframe''
   \<and> Element ''{http://www.w3.org/1999/xhtml}iframe'' [(''src'', ''x'')] [] \<in> set (iter xhtml_tree)
   \<and> PyQuery_call [xhtml_tree] ''iframe'' = []
   \<and> fst (validate_no_html_frame (PyQuery(xhtml_document := Inr [xhtml_tree]))
            (sample_file ''page.xhtml'' xhtml_document)) = Inr ()"
proof -
  have a: "local_name ''{http://www.w3.org/1999/xhtml}iframe'' = ''iframe''"
    by (simp add: local_name_def)
  have b: "Element ''{http://www.w3.org/1999/xhtml}iframe'' [(''src'', ''x'')] []
             \<in> set (iter xhtml_tree)"
    by (simp add: xhtml_tree_def)
  have c: "PyQuery_call [xhtml_tree] ''iframe'' = []"
    by (simp add: PyQuery_call_def xhtml_tree_def)
  have d: "fst (validate_no_html_frame (PyQuery(xhtml_document := Inr [xhtml_tree]))
            (sample_file ''page.xhtml'' xhtml_document)) = Inr ()"
    unfolding validate_no_html_frame_cases using xhtml_tree_no_frame_family
    by (simp add: sample_file_def)
  from a b c d show ?thesis by blast
qed

subsection \<open>External resources\<close>

text \<open>
  C2, as the code has it.  For a name of type \<open>url\<close> with slug \<open>github_org\<close> or
  \<open>github_repo\<close>, the value passes exactly when the HTTP URL validator passes it and the
  netloc of the parsed value, lower-cased, is \<open>github.com\<close>.  A value the URL validator
  passes whose netloc differs fails with \<open>URL must be a github url\<close>; a value it rejects
  fails with the validator's own error.
\<close>

theorem validate_external_resource_value_github:
  assumes "type_slug (rtype name) = ''url''"
    and "slug name = ''github_org'' \<or> slug name = ''github_repo''"
  shows "(validate_external_resource_value v urlparse_netloc name value = Inr () \<longleftrightarrow>
            validate_http_url v value = Inr ()
            \<and> (\<exists>netloc. urlparse_netloc value = Inr netloc \<and> lower netloc = ''github.com''))
       \<and> (validate_http_url v value = Inr () \<longrightarrow>
            (\<forall>netloc. urlparse_netloc value = Inr netloc \<longrightarrow> lower netloc \<noteq> ''github.com'' \<longrightarrow>
               validate_external_resource_value v urlparse_netloc name value
                 = Inl (ValidationError ''URL must be a github url'')))
       \<and> (\<forall>e. validate_http_url v value = Inl e \<longrightarrow>
            validate_external_resource_value v urlparse_netloc name value = Inl e)"
  using assms
  by (auto simp: validate_external_resource_value_def split: sum.splits)

theorem validate_external_resource_value_github_witness:
  "type_slug (rtype github_org) = ''url'' \<and> slug github_org = ''github_org''
   \<and> validate_external_resource_value sample_validators urlsplit_netloc github_org
        ''https://github.com/ietf/ietf'' = Inr ()
   \<and> validate_external_resource_value sample_validators urlsplit_netloc github_org
        ''https://gitlab.com/x'' = Inl (ValidationError ''URL must be a github url'')"
proof -
  have t: "type_slug (rtype github_org) = ''url''" and s: "slug github_org = ''github_org''"
    by (simp_all add: github_org_def)
  have ok: "validate_http_url sample_validators ''https://github.com/ietf/ietf'' = Inr ()"
      "validate_http_url sample_validators ''https://gitlab.com/x'' = Inr ()"
    by (simp_all add: sample_validators_def passes_only_def)
  have n1: "urlsplit_netloc ''https://github.com/ietf/ietf'' = Inr ''github.com''"
    by code_simp
  have n2: "urlsplit_netloc ''https://gitlab.com/x'' = Inr ''gitlab.com''"
    by code_simp
  have l1: "lower ''github.com'' = ''github.com''" and l2: "lower ''gitlab.com'' \<noteq> ''github.com''"
    by code_simp+
  from validate_external_resource_value_github[OF t disjI1[OF s],
      of sample_validators urlsplit_netloc "''https://github.com/ietf/ietf''"] ok(1) n1 l1
  have "validate_external_resource_value sample_validators urlsplit_netloc github_org
        ''https://github.com/ietf/ietf'' = Inr ()"
    by simp
  moreover
  from validate_external_resource_value_github[OF t disjI1[OF s],
      of sample_validators urlsplit_netloc "''https://gitlab.com/x''"] ok(2) n2 l2
  have "validate_external_resource_value sample_validators urlsplit_netloc github_org
        ''https://gitlab.com/x'' = Inl (ValidationError ''URL must be a github url'')"
    by simp
  ultimately show ?thesis using t s by simp
qed

text \<open>
  The netloc is more than the host: a URL that names the host \<open>github.com\<close> with an
  explicit port is rejected.
\<close>

theorem validate_external_resource_value_port_rejected:
  "validate_http_url sample_validators ''https://github.com:443/ietf'' = Inr ()
   \<and> urlsplit_netloc ''https://github.com:443/ietf'' = Inr ''github.com:443''
   \<and> hostname ''github.com:443'' = Some ''github.com''
   \<and> validate_external_resource_value sample_validators urlsplit_netloc github_org
        ''https://github.com:443/ietf'' = Inl (ValidationError ''URL must be a github url'')"
proof -
  have a: "validate_http_url sample_validators ''https://github.com:443/ietf'' = Inr ()"
    by (simp add: sample_validators_def passes_only_def)
  have b: "urlsplit_netloc ''https://github.com:443/ietf'' = Inr ''github.com:443''"
    by code_simp
  have c: "hostname ''github.com:443'' = Some ''github.com''"
    by code_simp
  have d: "lower ''github.com:443'' \<noteq> ''github.com''"
    by code_simp
  have "validate_external_resource_value sample_validators urlsplit_netloc github_org
        ''https://github.com:443/ietf'' = Inl (ValidationError ''URL must be a github url'')"
    using a b d by (simp add: validate_external_resource_value_def github_org_def)
  with a b c show ?thesis by simp
qed

text \<open>
  C7, as the code has it.  For a type slug other than \<open>url\<close>, \<open>email\<close> and \<open>string\<close> the
  validator fails, and the message is \<open>Unknown resource type\<close> followed by the name of
  the type (\<open>name.type.name\<close>), not by its slug.
\<close>

theorem validate_external_resource_value_unknown_type:
  assumes "type_slug (rtype name) \<notin> {''url'', ''email'', ''string''}"
  shows "validate_external_resource_value v urlparse_netloc name value
           = Inl (ValidationError (''Unknown resource type '' @ type_name (rtype name)))
         \<and> contains (type_name (rtype name)) (''Unknown resource type '' @ type_name (rtype name))"
proof -
  have "''Unknown resource type '' @ type_name (rtype name)
          = ''Unknown resource type '' @ type_name (rtype name) @ []"
    by simp
  then have "contains (type_name (rtype name)) (''Unknown resource type '' @ type_name (rtype name))"
    unfolding contains_iff by blast
  with assms show ?thesis
    by (simp add: validate_external_resource_value_def)
qed

theorem validate_external_resource_value_unknown_type_witness:
  "type_slug (rtype \<lparr> slug = ''tracker'', rtype = \<lparr> type_slug = ''bogus'', type_name = ''bogus'' \<rparr> \<rparr>)
      \<notin> {''url'', ''email'', ''string''}
   \<and> validate_external_resource_value sample_validators urlsplit_netloc
        \<lparr> slug = ''tracker'', rtype = \<lparr> type_slug = ''bogus'', type_name = ''bogus'' \<rparr> \<rparr> ''x''
      = Inl (ValidationError ''Unknown resource type bogus'')"
  using validate_external_resource_value_unknown_type
    [of "\<lparr> slug = ''tracker'', rtype = \<lparr> type_slug = ''bogus'', type_name = ''bogus'' \<rparr> \<rparr>"
        sample_validators urlsplit_netloc "''x''"]
  by simp

text \<open>
  A type with slug \<open>bogus\<close> and another name: the message does not contain \<open>bogus\<close>.
\<close>

theorem validate_external_resource_value_names_type_name:
  "type_slug (rtype bogus_resource) = ''bogus''
   \<and> validate_external_resource_value sample_validators urlsplit_netloc bogus_resource ''x''
      = Inl (ValidationError ''Unknown resource type Experimental'')
   \<and> \<not> contains ''bogus'' ''Unknown resource type Experimental''"
  by (simp add: validate_external_resource_value_def bogus_resource_def)

end
